theory Spec2Isabelle
  imports Complex_Main "HOL-Library.Sublist"
begin

section \<open>Python values used by the checker\<close>

text \<open>
  Paths, extensions and library error texts are Python \<open>str\<close> values; they are modelled
  by \<open>string\<close>, one \<open>char\<close> per character, so that \<open>length\<close> is Python's \<open>len\<close>.
  The program's own literals that are not ASCII (the Chinese message texts and the status
  glyphs) are not rendered: every message the program builds is a value of the datatype
  \<open>message\<close> below, which keeps the format string's identity and the interpolated values.

  An exception is a value of \<open>exn\<close>. All four constructors are subclasses of Python's
  \<open>Exception\<close>; the string is \<open>str(e)\<close>. A function that may raise returns
  \<open>exn + 'a\<close> with \<open>Inl\<close> for the raise.
\<close>

datatype exn =
    FileNotFoundError string
  | PermissionError string
  | ValueError string
  | OtherException string

fun str_exn :: "exn \<Rightarrow> string" where
  "str_exn (FileNotFoundError m) = m"
| "str_exn (PermissionError m) = m"
| "str_exn (ValueError m) = m"
| "str_exn (OtherException m) = m"

text \<open>
  A Python \<open>float\<close>: the program only compares floats with zero, converts them with
  \<open>int()\<close> and prints them, so a finite float is kept as the real number it denotes.
\<close>

datatype pyfloat = Finite real | PosInf | NegInf | NaN

text \<open>\<open>x <= 0\<close> on a float: false for NaN.\<close>

fun le_zero :: "pyfloat \<Rightarrow> bool" where
  "le_zero (Finite r) = (r \<le> 0)"
| "le_zero NegInf = True"
| "le_zero PosInf = False"
| "le_zero NaN = False"

text \<open>\<open>int(x)\<close> on a float truncates towards zero and raises on NaN and infinities.\<close>

fun py_int :: "pyfloat \<Rightarrow> exn + int" where
  "py_int (Finite r) = Inr (if 0 \<le> r then \<lfloor>r\<rfloor> else \<lceil>r\<rceil>)"
| "py_int NaN = Inl (ValueError ''cannot convert float NaN to integer'')"
| "py_int PosInf = Inl (OtherException ''cannot convert float infinity to integer'')"
| "py_int NegInf = Inl (OtherException ''cannot convert float infinity to integer'')"

definition bind_exn :: "exn + 'a \<Rightarrow> ('a \<Rightarrow> exn + 'b) \<Rightarrow> exn + 'b" where
  "bind_exn m f = (case m of Inl e \<Rightarrow> Inl e | Inr x \<Rightarrow> f x)"

subsection \<open>Path helpers of the standard library\<close>

text \<open>
  \<open>os.path.splitext(p)[1]\<close> in its POSIX form: the extension starts at the last dot of
  the last path component, and leading dots of that component do not start an extension.
  \<open>str.lower\<close> is modelled on ASCII letters.
\<close>

definition basename_part :: "string \<Rightarrow> string" where
  "basename_part p = rev (takeWhile (\<lambda>c. c \<noteq> CHR ''/'') (rev p))"

definition splitext_ext :: "string \<Rightarrow> string" where
  "splitext_ext p =
     (let b = basename_part p;
          after_dot = takeWhile (\<lambda>c. c \<noteq> CHR ''.'') (rev b)
      in if length after_dot = length b then []
         else if list_all (\<lambda>c. c = CHR ''.'') (take (length b - length after_dot - 1) b) then []
         else CHR ''.'' # rev after_dot)"

definition lower_char :: "char \<Rightarrow> char" where
  "lower_char c =
     (let n = (of_char c :: nat) in if 65 \<le> n \<and> n \<le> 90 then char_of (n + 32) else c)"

definition lower :: "string \<Rightarrow> string" where
  "lower s = map lower_char s"

text \<open>\<open>os.path.splitext(file_path)[1].lower()\<close>\<close>

definition file_ext_of :: "string \<Rightarrow> string" where
  "file_ext_of file_path = lower (splitext_ext file_path)"

text \<open>\<open>os.path.join(root, file)\<close> on POSIX, for two components.\<close>

definition path_join :: "string \<Rightarrow> string \<Rightarrow> string" where
  "path_join a b =
     (if b \<noteq> [] \<and> hd b = CHR ''/'' then b
      else if a = [] \<or> last a = CHR ''/'' then a @ b
      else a @ ''/'' @ b)"

section \<open>Messages, events and collaborators\<close>

text \<open>
  One constructor per message format of \<open>media_integrity_checker.py\<close>, in source order:
  \<^item> \<open>InvalidImageSize w h\<close>: line 59, invalid image size \<open>{w}x{h}\<close>;
  \<^item> \<open>FormatMismatch ext fmt\<close>: lines 67 and 69, format mismatch naming the extension and
    the detected format (\<open>None\<close> when PIL reports no format);
  \<^item> \<open>ImageOk\<close>: line 71;
  \<^item> \<open>FileMissing\<close>, \<open>NoPermission\<close>: lines 74, 76, 136, 138;
  \<^item> \<open>ImageCorrupt t\<close>: line 78, \<open>t = str(e)[:100]\<close>;
  \<^item> \<open>InvalidDuration d\<close>: line 96;
  \<^item> \<open>ProbeFailed t\<close>: line 101, \<open>t = str(e)[:80]\<close>;
  \<^item> \<open>CannotOpenVideo\<close>: line 110;
  \<^item> \<open>InvalidFrameCount n\<close>, \<open>InvalidFps f\<close>, \<open>InvalidVideoSize w h\<close>: lines 119 to 123;
  \<^item> \<open>FrameReadFailed idx\<close>: line 131, names the frame index;
  \<^item> \<open>VideoOk duration w h frame_count\<close>: line 133;
  \<^item> \<open>VideoCorrupt t\<close>: line 140, \<open>t = str(e)[:100]\<close>.
\<close>

datatype message =
    InvalidImageSize int int
  | FormatMismatch string "string option"
  | ImageOk
  | FileMissing
  | NoPermission
  | ImageCorrupt string
  | InvalidDuration pyfloat
  | ProbeFailed string
  | CannotOpenVideo
  | InvalidFrameCount int
  | InvalidFps pyfloat
  | InvalidVideoSize int int
  | FrameReadFailed int
  | VideoOk pyfloat int int int
  | VideoCorrupt string

type_synonym outcome = "bool \<times> message"

text \<open>
  The calls the checkers make on their collaborators, in the order they happen.
  \<open>CapAcquire\<close> is a \<open>cv2.VideoCapture\<close> object that was constructed, \<open>CapRelease\<close> its
  \<open>release()\<close>; \<open>Seek idx\<close> is \<open>cap.set(CAP_PROP_POS_FRAMES, idx)\<close> and \<open>ReadFrame\<close> is
  \<open>cap.read()\<close>. \<open>ImageOpen\<close> and \<open>ImageClose\<close> are the entry and exit of the
  \<open>with Image.open(...)\<close> block, \<open>Probe\<close> the call of \<open>subprocess.run\<close>.
\<close>

datatype event =
    ImageOpen string
  | ImageClose string
  | Probe string
  | CapAcquire string
  | CapRelease string
  | Seek int
  | ReadFrame

text \<open>What \<open>Image.open\<close> returns: the header fields and what \<open>img.load()\<close> will do.\<close>

record pil_image =
  img_width :: int
  img_height :: int
  img_format :: "string option"
  img_load :: "exn option"

datatype cap_prop = CAP_PROP_FRAME_COUNT | CAP_PROP_FPS | CAP_PROP_FRAME_WIDTH | CAP_PROP_FRAME_HEIGHT

text \<open>
  A \<open>cv2.VideoCapture\<close> object. It is mutable: \<open>cap.read()\<close> takes no index, and what a
  seek or a read does may depend on every call made on the object before. The checker
  calls \<open>cap.set(CAP_PROP_POS_FRAMES, idx)\<close> and \<open>cap.read()\<close> in strict alternation, so the
  calls made before are given by the list of the indices sought so far, oldest first:
  \<^item> \<open>cap_set_pos sought idx\<close> is the result of the seek to \<open>idx\<close> made after the seeks (and
    reads) of \<open>sought\<close>;
  \<^item> \<open>cap_read sought\<close> is the result \<open>(ret, frame is not None)\<close> of the \<open>cap.read()\<close> made
    after the seeks of \<open>sought\<close>, the last of which is the seek just before this read.

  The same index sought a second time may therefore read differently. \<open>isOpened\<close> and
  \<open>get\<close> are called before any seek. \<open>release()\<close> does not raise.
\<close>

record capture =
  isOpened :: "exn + bool"
  cap_get :: "cap_prop \<Rightarrow> exn + pyfloat"
  cap_set_pos :: "int list \<Rightarrow> int \<Rightarrow> exn + bool"
  cap_read :: "int list \<Rightarrow> exn + (bool \<times> bool)"

text \<open>
  The world outside the program: the file system (\<open>os.path.isdir\<close>, \<open>os.path.abspath\<close>,
  \<open>os.path.relpath\<close>, \<open>os.walk\<close>), PIL's \<open>Image.open\<close>, the \<open>ffprobe\<close> process run by
  \<open>subprocess.run(..., check=True)\<close> (its standard output, or the exception raised),
  \<open>float(s.strip())\<close>, and \<open>cv2.VideoCapture\<close>.
\<close>

record env =
  isdir :: "string \<Rightarrow> bool"
  abspath :: "string \<Rightarrow> string"
  relpath :: "string \<Rightarrow> string \<Rightarrow> string"
  walk :: "string \<Rightarrow> (string \<times> string list \<times> string list) list"
  image_open :: "string \<Rightarrow> exn + pil_image"
  ffprobe :: "string \<Rightarrow> exn + string"
  float_of_str :: "string \<Rightarrow> exn + pyfloat"
  video_capture :: "string \<Rightarrow> exn + capture"

section \<open>The image checker\<close>

text \<open>The body of the \<open>with\<close> block of \<open>check_image_integrity\<close> (lines 57 to 69).\<close>

definition image_block :: "string \<Rightarrow> pil_image \<Rightarrow> exn + outcome option" where
  "image_block file_path img =
     (if img_width img \<le> 0 \<or> img_height img \<le> 0
      then Inr (Some (False, InvalidImageSize (img_width img) (img_height img)))
      else (case img_load img of
              Some e \<Rightarrow> Inl e
            | None \<Rightarrow>
               (let file_ext = file_ext_of file_path in
                if file_ext = ''.jpg'' \<and> img_format img \<noteq> Some ''JPEG''
                then Inr (Some (False, FormatMismatch file_ext (img_format img)))
                else if file_ext = ''.png'' \<and> img_format img \<noteq> Some ''PNG''
                then Inr (Some (False, FormatMismatch file_ext (img_format img)))
                else Inr None)))"

text \<open>The \<open>try\<close> body: open, run the block, close on the way out, then line 71.\<close>

definition image_try :: "env \<Rightarrow> string \<Rightarrow> (exn + outcome) \<times> event list" where
  "image_try E file_path =
     (case image_open E file_path of
        Inl e \<Rightarrow> (Inl e, [])
      | Inr img \<Rightarrow>
         (case image_block file_path img of
            Inl e \<Rightarrow> (Inl e, [ImageOpen file_path, ImageClose file_path])
          | Inr (Some r) \<Rightarrow> (Inr r, [ImageOpen file_path, ImageClose file_path])
          | Inr None \<Rightarrow> (Inr (True, ImageOk), [ImageOpen file_path, ImageClose file_path])))"

text \<open>The three \<open>except\<close> clauses of lines 73 to 78.\<close>

fun image_except :: "exn \<Rightarrow> outcome" where
  "image_except (FileNotFoundError m) = (False, FileMissing)"
| "image_except (PermissionError m) = (False, NoPermission)"
| "image_except e = (False, ImageCorrupt (take 100 (str_exn e)))"

definition check_image_integrity :: "env \<Rightarrow> string \<Rightarrow> (exn + outcome) \<times> event list" where
  "check_image_integrity E file_path =
     (case image_try E file_path of
        (Inl e, evs) \<Rightarrow> (Inr (image_except e), evs)
      | (Inr r, evs) \<Rightarrow> (Inr r, evs))"

section \<open>The video checker\<close>

text \<open>
  Lines 86 to 101: the \<open>try\<close> body of the probe step. \<open>Inr (Inl r)\<close> is the \<open>return\<close>
  of line 96, \<open>Inr (Inr d)\<close> is falling out of the \<open>try\<close> with \<open>duration = d\<close>.
\<close>

definition probe_try :: "env \<Rightarrow> string \<Rightarrow> exn + (outcome + pyfloat)" where
  "probe_try E file_path =
     bind_exn (ffprobe E file_path) (\<lambda>stdout.
     bind_exn (float_of_str E stdout) (\<lambda>duration.
       if le_zero duration then Inr (Inl (False, InvalidDuration duration))
       else Inr (Inr duration)))"

text \<open>
  The \<open>except\<close> clauses of lines 97 to 101: \<open>FileNotFoundError\<close> passes with
  \<open>duration\<close> still \<open>0.0\<close>; any other exception ends the check.
\<close>

definition probe_duration :: "env \<Rightarrow> string \<Rightarrow> outcome + pyfloat" where
  "probe_duration E file_path =
     (case probe_try E file_path of
        Inl (FileNotFoundError m) \<Rightarrow> Inr (Finite 0)
      | Inl e \<Rightarrow> Inl (False, ProbeFailed (take 80 (str_exn e)))
      | Inr x \<Rightarrow> x)"

text \<open>Lines 113 to 116: the four properties are read before any of them is checked.\<close>

definition read_props :: "capture \<Rightarrow> exn + (int \<times> pyfloat \<times> int \<times> int)" where
  "read_props cap =
     bind_exn (bind_exn (cap_get cap CAP_PROP_FRAME_COUNT) py_int) (\<lambda>frame_count.
     bind_exn (cap_get cap CAP_PROP_FPS) (\<lambda>fps.
     bind_exn (bind_exn (cap_get cap CAP_PROP_FRAME_WIDTH) py_int) (\<lambda>width.
     bind_exn (bind_exn (cap_get cap CAP_PROP_FRAME_HEIGHT) py_int) (\<lambda>height.
       Inr (frame_count, fps, width, height)))))"

text \<open>Line 126. Python's \<open>//\<close> is floor division, as \<open>div\<close> on \<open>int\<close> is.\<close>

definition test_frames :: "int \<Rightarrow> int list" where
  "test_frames frame_count = [0, min 100 (frame_count div 2), max 0 (frame_count - 5)]"

text \<open>
  The loop of lines 127 to 131, over the indices still to visit; \<open>sought\<close> are the indices
  the loop has sought on \<open>cap\<close> so far. The value of \<open>cap.set\<close> is ignored; \<open>Inr (Some r)\<close>
  is the \<open>return\<close> of line 131, \<open>Inr None\<close> is the loop running to its end.
\<close>

fun sample_frames ::
  "capture \<Rightarrow> int list \<Rightarrow> int list \<Rightarrow> (exn + outcome option) \<times> event list" where
  "sample_frames cap sought [] = (Inr None, [])"
| "sample_frames cap sought (frame_idx # rest) =
     (case cap_set_pos cap sought frame_idx of
        Inl e \<Rightarrow> (Inl e, [Seek frame_idx])
      | Inr _ \<Rightarrow>
         (case cap_read cap (sought @ [frame_idx]) of
            Inl e \<Rightarrow> (Inl e, [Seek frame_idx, ReadFrame])
          | Inr (ret, has_frame) \<Rightarrow>
             if \<not> ret \<or> \<not> has_frame
             then (Inr (Some (False, FrameReadFailed frame_idx)), [Seek frame_idx, ReadFrame])
             else (case sample_frames cap (sought @ [frame_idx]) rest of
                     (r, evs) \<Rightarrow> (r, [Seek frame_idx, ReadFrame] @ evs))))"

text \<open>Lines 109 to 133: the \<open>try\<close> body once \<open>cap\<close> is bound.\<close>

definition video_try :: "capture \<Rightarrow> pyfloat \<Rightarrow> (exn + outcome) \<times> event list" where
  "video_try cap duration =
     (case isOpened cap of
        Inl e \<Rightarrow> (Inl e, [])
      | Inr opened \<Rightarrow>
         if \<not> opened then (Inr (False, CannotOpenVideo), [])
         else (case read_props cap of
                 Inl e \<Rightarrow> (Inl e, [])
               | Inr (frame_count, fps, width, height) \<Rightarrow>
                  if frame_count \<le> 0 then (Inr (False, InvalidFrameCount frame_count), [])
                  else if le_zero fps then (Inr (False, InvalidFps fps), [])
                  else if width \<le> 0 \<or> height \<le> 0
                    then (Inr (False, InvalidVideoSize width height), [])
                  else (case sample_frames cap [] (test_frames frame_count) of
                          (Inl e, evs) \<Rightarrow> (Inl e, evs)
                        | (Inr (Some r), evs) \<Rightarrow> (Inr r, evs)
                        | (Inr None, evs) \<Rightarrow>
                            (Inr (True, VideoOk duration width height frame_count), evs))))"

text \<open>The three \<open>except\<close> clauses of lines 135 to 140.\<close>

fun video_except :: "exn \<Rightarrow> outcome" where
  "video_except (FileNotFoundError m) = (False, FileMissing)"
| "video_except (PermissionError m) = (False, NoPermission)"
| "video_except e = (False, VideoCorrupt (take 100 (str_exn e)))"

text \<open>
  Lines 104 to 143, the frame-decode steps: \<open>cap\<close> stays \<open>None\<close> when the constructor
  raises, and the \<open>finally\<close> clause releases a \<open>cap\<close> that is not \<open>None\<close> after
  everything else.
\<close>

definition decode_steps :: "env \<Rightarrow> string \<Rightarrow> pyfloat \<Rightarrow> (exn + outcome) \<times> event list" where
  "decode_steps E file_path duration =
     (case video_capture E file_path of
        Inl e \<Rightarrow> (Inr (video_except e), [])
      | Inr cap \<Rightarrow>
         (case video_try cap duration of
            (Inl e, evs) \<Rightarrow>
              (Inr (video_except e), [CapAcquire file_path] @ evs @ [CapRelease file_path])
          | (Inr r, evs) \<Rightarrow>
              (Inr r, [CapAcquire file_path] @ evs @ [CapRelease file_path])))"

definition check_video_integrity :: "env \<Rightarrow> string \<Rightarrow> (exn + outcome) \<times> event list" where
  "check_video_integrity E file_path =
     (case probe_duration E file_path of
        Inl r \<Rightarrow> (Inr r, [Probe file_path])
      | Inr duration \<Rightarrow>
         (case decode_steps E file_path duration of
            (r, evs) \<Rightarrow> (r, Probe file_path # evs)))"

section \<open>The checker object\<close>

datatype media_type = IMAGE | VIDEO

text \<open>The status text of line 170: the "normal" glyph or the "damaged" glyph.\<close>

datatype status = StatusOk | StatusDamaged

text \<open>One entry of \<open>self.results\<close> (the dictionary of lines 173 to 178).\<close>

record check_result =
  res_path :: string
  res_type :: media_type
  res_status :: status
  res_message :: message

text \<open>The attributes of \<open>MediaIntegrityChecker\<close>; Python's integers are unbounded.\<close>

record checker =
  directory :: string
  recursive :: bool
  report_file :: "string option"
  media_files :: "string list"
  results :: "check_result list"
  total_count :: int
  ok_count :: int
  error_count :: int

definition SUPPORTED_IMAGES :: "string list" where
  "SUPPORTED_IMAGES = [''.jpg'', ''.jpeg'', ''.png'', ''.gif'', ''.bmp'']"

definition SUPPORTED_VIDEOS :: "string list" where
  "SUPPORTED_VIDEOS = [''.mp4'', ''.avi'', ''.mkv'', ''.mov'', ''.flv'']"

text \<open>
  \<open>__init__\<close> (lines 22 to 33). The text of the \<open>ValueError\<close> is a Chinese sentence around
  the directory; the model keeps the directory it names.
\<close>

definition init :: "env \<Rightarrow> string \<Rightarrow> bool \<Rightarrow> string option \<Rightarrow> exn + checker" where
  "init E dir rec rep =
     (let self = \<lparr> directory = abspath E dir, recursive = rec, report_file = rep,
                   media_files = [], results = [], total_count = 0, ok_count = 0,
                   error_count = 0 \<rparr>
      in if \<not> isdir E (directory self) then Inl (ValueError (directory self))
         else Inr self)"

text \<open>Lines 40 and 41.\<close>

definition is_media :: "string \<Rightarrow> bool" where
  "is_media file =
     (let file_ext = file_ext_of file
      in file_ext \<in> set SUPPORTED_IMAGES \<or> file_ext \<in> set SUPPORTED_VIDEOS)"

text \<open>
  The loop over \<open>os.walk\<close> of lines 38 to 44; without \<open>recursive\<close> it breaks after the
  first directory.
\<close>

fun scan_walk :: "bool \<Rightarrow> (string \<times> string list \<times> string list) list \<Rightarrow> string list \<Rightarrow> string list" where
  "scan_walk rec [] found = found"
| "scan_walk rec ((root_dir, dirs, files) # rest) found =
     (let found' = found @ map (path_join root_dir) (filter is_media files)
      in if \<not> rec then found' else scan_walk rec rest found')"

definition scan_media_files :: "env \<Rightarrow> checker \<Rightarrow> checker" where
  "scan_media_files E self =
     (let found = scan_walk (recursive self) (walk E (directory self)) []
      in self\<lparr> media_files := found, total_count := int (length found) \<rparr>)"

text \<open>
  The loop of lines 156 to 181 over the remaining files, carrying \<open>self.results\<close>,
  \<open>self.ok_count\<close> and the collaborator calls made so far. An exception that a checker
  lets through would end the loop (and the run) here.
\<close>

fun check_files ::
  "env \<Rightarrow> string \<Rightarrow> string list \<Rightarrow> check_result list \<times> int \<times> event list
     \<Rightarrow> exn + (check_result list \<times> int \<times> event list)" where
  "check_files E dir [] acc = Inr acc"
| "check_files E dir (file_path # rest) (res, ok, evs) =
     (let relative_path = relpath E file_path dir;
          file_ext = file_ext_of file_path;
          is_image = (file_ext \<in> set SUPPORTED_IMAGES);
          checked = (if is_image then check_image_integrity E file_path
                     else check_video_integrity E file_path);
          file_type = (if is_image then IMAGE else VIDEO)
      in case checked of
           (Inl e, evs') \<Rightarrow> Inl e
         | (Inr (is_ok, msg), evs') \<Rightarrow>
             check_files E dir rest
               (res @ [\<lparr> res_path = relative_path, res_type = file_type,
                          res_status = (if is_ok then StatusOk else StatusDamaged),
                          res_message = msg \<rparr>],
                if is_ok then ok + 1 else ok,
                evs @ evs'))"

text \<open>\<open>run_checks\<close> (lines 147 to 183); console output is not modelled.\<close>

definition run_checks :: "env \<Rightarrow> checker \<Rightarrow> exn + (checker \<times> event list)" where
  "run_checks E self0 =
     (let self1 = (if media_files self0 = [] then scan_media_files E self0 else self0)
      in if media_files self1 = [] then Inr (self1, [])
         else
           (let self2 = self1\<lparr> results := [], ok_count := 0 \<rparr>
            in case check_files E (directory self2) (media_files self2)
                      (results self2, ok_count self2, []) of
                 Inl e \<Rightarrow> Inl e
               | Inr (res, ok, evs) \<Rightarrow>
                   Inr (self2\<lparr> results := res, ok_count := ok,
                                error_count := total_count self2 - ok \<rparr>, evs)))"

section \<open>The report\<close>

text \<open>
  One entry of the list \<open>generate_report\<close> returns. \<open>Rule\<close> entries are the ASCII
  separators; the other header entries stand for the f-strings of lines 189 to 198 with
  the values they interpolate (\<open>DetailHeading\<close> is the entry that starts with a newline
  character); \<open>ResultLine\<close> is the f-string of line 205 with its four arguments, which the
  format pads to 50, 8 and 10 columns.
\<close>

datatype report_line =
    Rule string
  | Title
  | DirectoryLine string
  | ModeLine bool
  | TotalLine int
  | OkLine int
  | ErrorLine int
  | DetailHeading
  | ColumnHeader
  | ResultLine string media_type status message

text \<open>\<open>s[-n:]\<close> for \<open>n > 0\<close>: the whole string when it is shorter than \<open>n\<close>.\<close>

definition last_chars :: "nat \<Rightarrow> string \<Rightarrow> string" where
  "last_chars n s = drop (length s - n) s"

text \<open>Line 204.\<close>

definition display_path :: "string \<Rightarrow> string" where
  "display_path p = (if length p \<le> 50 then p else ''...'' @ last_chars 47 p)"

definition result_line :: "check_result \<Rightarrow> report_line" where
  "result_line res =
     ResultLine (display_path (res_path res)) (res_type res) (res_status res) (res_message res)"

definition generate_report :: "checker \<Rightarrow> report_line list" where
  "generate_report self =
     [ Rule (replicate 80 (CHR ''='')),
       Title,
       Rule (replicate 80 (CHR ''='')),
       DirectoryLine (directory self),
       ModeLine (recursive self),
       TotalLine (total_count self),
       OkLine (ok_count self),
       ErrorLine (error_count self),
       DetailHeading,
       Rule (replicate 80 (CHR ''-'')),
       ColumnHeader,
       Rule (replicate 80 (CHR ''-'')) ]
     @ map result_line (results self)"

text \<open>
  \<open>save_report\<close>: the file written, if any (\<open>None\<close> and the empty string are both false
  in \<open>if self.report_file\<close>). Writing is taken to succeed.
\<close>

definition save_report :: "checker \<Rightarrow> report_line list \<Rightarrow> (string \<times> report_line list) option" where
  "save_report self report =
     (case report_file self of
        None \<Rightarrow> None
      | Some f \<Rightarrow> if f = [] then None else Some (f, report))"

section \<open>Running\<close>

text \<open>What one call of \<open>run\<close> leaves behind.\<close>

record run_result =
  final :: checker
  events :: "event list"
  report :: "report_line list option"
  saved :: "(string \<times> report_line list) option"

definition run :: "env \<Rightarrow> checker \<Rightarrow> exn + run_result" where
  "run E self0 =
     (let self1 = scan_media_files E self0
      in if media_files self1 = []
         then Inr \<lparr> final = self1, events = [], report = None, saved = None \<rparr>
         else (case run_checks E self1 of
                 Inl e \<Rightarrow> Inl e
               | Inr (self2, evs) \<Rightarrow>
                   (let rep = generate_report self2
                    in Inr \<lparr> final = self2, events = evs, report = Some rep,
                             saved = save_report self2 rep \<rparr>)))"

text \<open>
  How the process of \<open>main.py\<close> ends: it returns from \<open>main\<close> (exit status 0), it prints
  the error and calls \<open>exit(1)\<close> in the \<open>except ValueError\<close> clause, or another exception
  leaves \<open>main\<close> and the interpreter ends with status 1.
\<close>

datatype process_end =
    Completed run_result
  | ErrorExit string
  | Uncaught exn

fun exit_status :: "process_end \<Rightarrow> int" where
  "exit_status (Completed r) = 0"
| "exit_status (ErrorExit m) = 1"
| "exit_status (Uncaught e) = 1"

fun results_of :: "process_end \<Rightarrow> check_result list" where
  "results_of (Completed r) = results (final r)"
| "results_of (ErrorExit m) = []"
| "results_of (Uncaught e) = []"

fun events_of :: "process_end \<Rightarrow> event list" where
  "events_of (Completed r) = events r"
| "events_of (ErrorExit m) = []"
| "events_of (Uncaught e) = []"

text \<open>Lines 18 to 28 of \<open>main.py\<close>, after argument parsing.\<close>

definition main :: "env \<Rightarrow> string \<Rightarrow> bool \<Rightarrow> string option \<Rightarrow> process_end" where
  "main E dir rec rep =
     (case bind_exn (init E dir rec rep) (run E) of
        Inl (ValueError m) \<Rightarrow> ErrorExit m
      | Inl e \<Rightarrow> Uncaught e
      | Inr r \<Rightarrow> Completed r)"

section \<open>Reading the record of collaborator calls\<close>

text \<open>Whether an exception is the \<open>FileNotFoundError\<close> that \<open>subprocess.run\<close> raises
  when the \<open>ffprobe\<close> executable does not exist.\<close>

fun is_file_not_found :: "exn \<Rightarrow> bool" where
  "is_file_not_found (FileNotFoundError m) = True"
| "is_file_not_found e = False"

text \<open>
  The discipline of the capture handle over a sequence of calls, given the handle held at
  its start: a handle is acquired only when none is held, frames are sought and read only
  on a held handle, the handle released is the one held, and none is held at the end.
\<close>

fun scoped :: "string option \<Rightarrow> event list \<Rightarrow> bool" where
  "scoped held [] = (held = None)"
| "scoped held (CapAcquire p # evs) = (held = None \<and> scoped (Some p) evs)"
| "scoped held (CapRelease p # evs) = (held = Some p \<and> scoped None evs)"
| "scoped held (Seek i # evs) = (held \<noteq> None \<and> scoped held evs)"
| "scoped held (ReadFrame # evs) = (held \<noteq> None \<and> scoped held evs)"
| "scoped held (ImageOpen p # evs) = scoped held evs"
| "scoped held (ImageClose p # evs) = scoped held evs"
| "scoped held (Probe p # evs) = scoped held evs"


text \<open>After the seeks of \<open>sought\<close>, the seek to \<open>idx\<close> returns and the read after it
  yields a frame.\<close>

definition frame_read_ok :: "capture \<Rightarrow> int list \<Rightarrow> int \<Rightarrow> bool" where
  "frame_read_ok cap sought idx =
     (case cap_set_pos cap sought idx of
        Inl e \<Rightarrow> False
      | Inr b \<Rightarrow> cap_read cap (sought @ [idx]) = Inr (True, True))"



text \<open>Sought one after the other after the seeks of \<open>sought\<close>, every index of the list
  yields a frame.\<close>

fun all_reads_ok :: "capture \<Rightarrow> int list \<Rightarrow> int list \<Rightarrow> bool" where
  "all_reads_ok cap sought [] = True"
| "all_reads_ok cap sought (idx # rest) =
     (frame_read_ok cap sought idx \<and> all_reads_ok cap (sought @ [idx]) rest)"

text \<open>The counts of a checker agree with its list of results.\<close>

definition counted :: "checker \<Rightarrow> bool" where
  "counted self \<longleftrightarrow>
     total_count self = int (length (results self))
     \<and> length (results self) = length (media_files self)
     \<and> ok_count self = int (length (filter (\<lambda>x. res_status x = StatusOk) (results self)))
     \<and> error_count self = int (length (filter (\<lambda>x. res_status x = StatusDamaged) (results self)))"

section \<open>A sample world\<close>

text \<open>
  A directory \<open>/media\<close> with three media files, a text file and a subdirectory. Every
  image that opens decodes as a 100 by 100 PNG, whatever its name; \<open>ffprobe\<close> is not
  installed; every video opens with 300 frames at 25 frames per second, 640 by 480, and
  a read that follows a seek to index 295 or beyond yields no frame.
\<close>

definition png_image :: pil_image where
  "png_image = \<lparr> img_width = 100, img_height = 100, img_format = Some ''PNG'', img_load = None \<rparr>"

definition demo_get :: "cap_prop \<Rightarrow> exn + pyfloat" where
  "demo_get prop =
     (case prop of
        CAP_PROP_FRAME_COUNT \<Rightarrow> Inr (Finite 300)
      | CAP_PROP_FPS \<Rightarrow> Inr (Finite 25)
      | CAP_PROP_FRAME_WIDTH \<Rightarrow> Inr (Finite 640)
      | CAP_PROP_FRAME_HEIGHT \<Rightarrow> Inr (Finite 480))"

definition demo_capture :: capture where
  "demo_capture =
     \<lparr> isOpened = Inr True, cap_get = demo_get, cap_set_pos = (\<lambda>sought i. Inr True),
       cap_read = (\<lambda>sought. Inr (sought \<noteq> [] \<and> last sought < 295,
                                  sought \<noteq> [] \<and> last sought < 295)) \<rparr>"

definition demo_env :: env where
  "demo_env =
     \<lparr> isdir = (\<lambda>p. p = ''/media''),
       abspath = (\<lambda>p. if p \<noteq> [] \<and> hd p = CHR ''/'' then p else path_join ''/work'' p),
       relpath = (\<lambda>p start. drop (length start + 1) p),
       walk = (\<lambda>d. if d = ''/media''
                    then [(''/media'', [''sub''], [''clip.mp4'', ''photo.jpeg'', ''anim.gif'', ''notes.txt'']),
                          (''/media/sub'', [], [''broken.png''])]
                    else []),
       image_open = (\<lambda>p. if p = ''/media/sub/broken.png''
                          then Inl (OtherException ''cannot identify image file'')
                          else Inr png_image),
       ffprobe = (\<lambda>p. Inl (FileNotFoundError ''ffprobe'')),
       float_of_str = (\<lambda>s. if s = ''12.5'' then Inr (Finite 12.5)
                            else if s = ''0.0'' then Inr (Finite 0)
                            else Inl (ValueError ''could not convert string to float'')),
       video_capture = (\<lambda>p. Inr demo_capture) \<rparr>"

text \<open>The same world with \<open>ffprobe\<close> installed and printing \<open>0.0\<close>.\<close>

definition zero_probe_env :: env where
  "zero_probe_env = demo_env\<lparr> ffprobe := (\<lambda>p. Inr ''0.0'') \<rparr>"

text \<open>The same world with \<open>ffprobe\<close> installed and ending with a non-zero status.\<close>

definition failing_probe_env :: env where
  "failing_probe_env =
     demo_env\<lparr> ffprobe := (\<lambda>p. Inl (OtherException ''Command returned non-zero exit status 1'')) \<rparr>"




text \<open>The same world where reading a frame raises an exception.\<close>

definition raising_env :: env where
  "raising_env =
     demo_env\<lparr> video_capture :=
       (\<lambda>p. Inr (demo_capture\<lparr> cap_read := (\<lambda>sought. Inl (OtherException ''decode error'')) \<rparr>)) \<rparr>"




text \<open>The checker that \<open>__init__\<close> builds for \<open>/media\<close>, without recursion or report file.\<close>

definition fresh_demo :: checker where
  "fresh_demo =
     \<lparr> directory = ''/media'', recursive = False, report_file = None,
       media_files = [], results = [], total_count = 0, ok_count = 0, error_count = 0 \<rparr>"

text \<open>A checker after a run whose second file has a relative path of 60 characters.\<close>

definition long_path :: string where
  "long_path = ''holiday/2023/summer/beach/day-one/raw/IMG_0001_original.jpeg''"

definition reported_checker :: checker where
  "reported_checker =
     \<lparr> directory = ''/media'', recursive = True, report_file = None,
       media_files = [''/media/a.png'', ''/media/'' @ long_path],
       results =
         [\<lparr> res_path = ''a.png'', res_type = IMAGE, res_status = StatusOk, res_message = ImageOk \<rparr>,
          \<lparr> res_path = long_path, res_type = IMAGE, res_status = StatusOk, res_message = ImageOk \<rparr>],
       total_count = 2, ok_count = 2, error_count = 0 \<rparr>"

section \<open>Properties of the image checker\<close>

lemma check_image_returns: "\<exists>r evs. check_image_integrity E p = (Inr r, evs)"
  by (cases "image_try E p"; cases "fst (image_try E p)") (auto simp: check_image_integrity_def)

text \<open>
  What the \<open>with\<close> block does for an image that decodes fully with positive dimensions:
  only the extensions \<open>.jpg\<close> and \<open>.png\<close> are compared with the detected format.
\<close>

lemma image_block_decoded:
  assumes "0 < img_width img" "0 < img_height img" "img_load img = None"
  shows "image_block p img =
     (if (file_ext_of p = ''.jpg'' \<and> img_format img \<noteq> Some ''JPEG'')
         \<or> (file_ext_of p = ''.png'' \<and> img_format img \<noteq> Some ''PNG'')
      then Inr (Some (False, FormatMismatch (file_ext_of p) (img_format img)))
      else Inr None)"
  using assms by (simp add: image_block_def Let_def)

lemma ext_photo_jpeg: "file_ext_of ''/media/photo.jpeg'' = ''.jpeg''"
  by code_simp

lemma ext_anim_gif: "file_ext_of ''/media/anim.gif'' = ''.gif''"
  by code_simp

lemma ext_clip_mp4: "file_ext_of ''/media/clip.mp4'' = ''.mp4''"
  by code_simp

text \<open>
  Claim C1, at the input where the code departs from it. An image file whose lowercased
  extension is \<open>.jpeg\<close> and that decodes fully with positive dimensions is reported as
  normal whatever format was detected: line 66 compares the extension with \<open>.jpg\<close> only,
  so the cross-check the claim describes for \<open>.jpeg\<close> is never made.
\<close>

theorem jpeg_extension_not_cross_checked:
  assumes "file_ext_of p = ''.jpeg''"
    and "image_open E p = Inr img"
    and "0 < img_width img" and "0 < img_height img" and "img_load img = None"
  shows "fst (check_image_integrity E p) = Inr (True, ImageOk)"
proof -
  from assms(1) have "image_block p img = Inr None"
    using image_block_decoded [OF assms(3-5), of p] by auto
  with assms(2) show ?thesis
    by (simp add: check_image_integrity_def image_try_def)
qed

text \<open>The file \<open>photo.jpeg\<close> of the sample world holds a valid PNG and is reported normal.\<close>

theorem jpeg_extension_not_cross_checked_witness:
  "file_ext_of ''/media/photo.jpeg'' = ''.jpeg''
   \<and> image_open demo_env ''/media/photo.jpeg'' = Inr png_image
   \<and> img_format png_image \<noteq> Some ''JPEG''
   \<and> fst (check_image_integrity demo_env ''/media/photo.jpeg'') = Inr (True, ImageOk)"
proof -
  have o: "image_open demo_env ''/media/photo.jpeg'' = Inr png_image"
    by (simp add: demo_env_def)
  have "fst (check_image_integrity demo_env ''/media/photo.jpeg'') = Inr (True, ImageOk)"
    using jpeg_extension_not_cross_checked [of "''/media/photo.jpeg''" demo_env png_image]
      o ext_photo_jpeg
    by (simp add: png_image_def)
  with o ext_photo_jpeg show ?thesis by (simp add: png_image_def)
qed

text \<open>
  Claim C10. For an image file whose lowercased extension is \<open>.gif\<close> or \<open>.bmp\<close>, no
  comparison of the extension with the detected format is made: if the file decodes fully
  with positive width and height, the result is ok with the "image normal" message,
  whatever the detected format is.
\<close>

theorem gif_bmp_not_cross_checked:
  assumes "file_ext_of p = ''.gif'' \<or> file_ext_of p = ''.bmp''"
    and "image_open E p = Inr img"
    and "0 < img_width img" and "0 < img_height img" and "img_load img = None"
  shows "fst (check_image_integrity E p) = Inr (True, ImageOk)"
proof -
  from assms(1) have "image_block p img = Inr None"
    using image_block_decoded [OF assms(3-5), of p] by auto
  with assms(2) show ?thesis
    by (simp add: check_image_integrity_def image_try_def)
qed

text \<open>The file \<open>anim.gif\<close> of the sample world holds a PNG and is reported normal.\<close>

theorem gif_bmp_not_cross_checked_witness:
  "file_ext_of ''/media/anim.gif'' = ''.gif''
   \<and> image_open demo_env ''/media/anim.gif'' = Inr png_image
   \<and> img_format png_image = Some ''PNG''
   \<and> fst (check_image_integrity demo_env ''/media/anim.gif'') = Inr (True, ImageOk)"
proof -
  have o: "image_open demo_env ''/media/anim.gif'' = Inr png_image"
    by (simp add: demo_env_def)
  have "fst (check_image_integrity demo_env ''/media/anim.gif'') = Inr (True, ImageOk)"
    using gif_bmp_not_cross_checked [of "''/media/anim.gif''" demo_env png_image]
      o ext_anim_gif
    by (simp add: png_image_def)
  with o ext_anim_gif show ?thesis by (simp add: png_image_def)
qed

section \<open>Properties of the video checker\<close>

subsection \<open>The probe step\<close>

lemma decode_steps_returns: "\<exists>r evs. decode_steps E p d = (Inr r, evs)"
  unfolding decode_steps_def
  by (cases "video_capture E p"; cases "video_try (projr (video_capture E p)) d";
      cases "fst (video_try (projr (video_capture E p)) d)") auto

lemma check_video_returns: "\<exists>r evs. check_video_integrity E p = (Inr r, evs)"
proof (cases "probe_duration E p")
  case (Inl r)
  then show ?thesis by (simp add: check_video_integrity_def)
next
  case (Inr d)
  obtain r evs where "decode_steps E p d = (Inr r, evs)"
    using decode_steps_returns by blast
  with Inr show ?thesis by (simp add: check_video_integrity_def)
qed

lemma probe_absent:
  "ffprobe E p = Inl (FileNotFoundError m) \<Longrightarrow> probe_duration E p = Inr (Finite 0)"
  by (simp add: probe_duration_def probe_try_def bind_exn_def)

lemma probe_raises:
  "ffprobe E p = Inl e \<Longrightarrow> \<not> is_file_not_found e \<Longrightarrow>
   probe_duration E p = Inl (False, ProbeFailed (take 80 (str_exn e)))"
  by (cases e) (simp_all add: probe_duration_def probe_try_def bind_exn_def)

lemma probe_unparsable:
  "ffprobe E p = Inr out \<Longrightarrow> float_of_str E out = Inl e \<Longrightarrow> \<not> is_file_not_found e \<Longrightarrow>
   probe_duration E p = Inl (False, ProbeFailed (take 80 (str_exn e)))"
  by (cases e) (simp_all add: probe_duration_def probe_try_def bind_exn_def)

lemma probe_not_positive:
  "ffprobe E p = Inr out \<Longrightarrow> float_of_str E out = Inr d \<Longrightarrow> le_zero d \<Longrightarrow>
   probe_duration E p = Inl (False, InvalidDuration d)"
  by (simp add: probe_duration_def probe_try_def bind_exn_def)

lemma probe_positive:
  "ffprobe E p = Inr out \<Longrightarrow> float_of_str E out = Inr d \<Longrightarrow> \<not> le_zero d \<Longrightarrow>
   probe_duration E p = Inr d"
  by (simp add: probe_duration_def probe_try_def bind_exn_def)

lemma check_video_after_probe:
  "probe_duration E p = Inr d \<Longrightarrow>
   check_video_integrity E p = (fst (decode_steps E p d), Probe p # snd (decode_steps E p d))"
  by (simp add: check_video_integrity_def split: prod.splits)

lemma check_video_probe_ends:
  "probe_duration E p = Inl r \<Longrightarrow> check_video_integrity E p = (Inr r, [Probe p])"
  by (simp add: check_video_integrity_def)

text \<open>
  Claim C2. In \<open>check_video_integrity\<close>:
  \<^item> when the probe tool is not installed (\<open>subprocess.run\<close> raises \<open>FileNotFoundError\<close>),
    the duration stays 0 and the check is the frame-decode steps run with that duration,
    after the probe call;
  \<^item> when the tool runs and prints a duration that is at most 0, the check fails at once
    with the invalid-duration message, and the probe call is the only call made: no
    capture is constructed and no frame is sought;
  \<^item> when the tool fails in any other way (any exception other than
    \<open>FileNotFoundError\<close>, from the process or from parsing its output), the check fails
    at once with the probe-failure message around the first 80 characters of the error text.
\<close>

theorem probe_step_outcomes:
  "(ffprobe E p = Inl (FileNotFoundError m) \<longrightarrow>
      probe_duration E p = Inr (Finite 0)
      \<and> check_video_integrity E p =
          (fst (decode_steps E p (Finite 0)), Probe p # snd (decode_steps E p (Finite 0))))
   \<and> (ffprobe E p = Inr out \<and> float_of_str E out = Inr d \<and> le_zero d \<longrightarrow>
        check_video_integrity E p = (Inr (False, InvalidDuration d), [Probe p]))
   \<and> (ffprobe E p = Inl e \<and> \<not> is_file_not_found e \<longrightarrow>
        check_video_integrity E p = (Inr (False, ProbeFailed (take 80 (str_exn e))), [Probe p]))
   \<and> (ffprobe E p = Inr out \<and> float_of_str E out = Inl e \<and> \<not> is_file_not_found e \<longrightarrow>
        check_video_integrity E p = (Inr (False, ProbeFailed (take 80 (str_exn e))), [Probe p]))"
  using probe_absent [of E p m] check_video_after_probe [of E p "Finite 0"]
    probe_not_positive [of E p out d] probe_raises [of E p e] probe_unparsable [of E p out e]
    check_video_probe_ends [of E p]
  by auto

lemma demo_props: "read_props demo_capture = Inr (300, Finite 25, 640, 480)"
  by (simp add: read_props_def demo_capture_def demo_get_def bind_exn_def)

lemma demo_opened: "isOpened demo_capture = Inr True"
  by (simp add: demo_capture_def)

lemma demo_sampling:
  "sample_frames demo_capture [] (test_frames 300) =
     (Inr (Some (False, FrameReadFailed 295)),
      [Seek 0, ReadFrame, Seek 100, ReadFrame, Seek 295, ReadFrame])"
  by (simp add: test_frames_def demo_capture_def)

lemma demo_video_try:
  "video_try demo_capture d =
     (Inr (False, FrameReadFailed 295),
      [Seek 0, ReadFrame, Seek 100, ReadFrame, Seek 295, ReadFrame])"
  by (simp add: video_try_def demo_props demo_sampling demo_opened)

lemma demo_decode:
  "decode_steps demo_env ''/media/clip.mp4'' d =
     (Inr (False, FrameReadFailed 295),
      [CapAcquire ''/media/clip.mp4'', Seek 0, ReadFrame, Seek 100, ReadFrame, Seek 295,
       ReadFrame, CapRelease ''/media/clip.mp4''])"
proof -
  have "video_capture demo_env ''/media/clip.mp4'' = Inr demo_capture"
    by (simp add: demo_env_def)
  then show ?thesis by (simp add: decode_steps_def demo_video_try)
qed

text \<open>
  The three cases in the sample world: without \<open>ffprobe\<close> the frames of \<open>clip.mp4\<close> are
  sampled; with \<open>ffprobe\<close> printing \<open>0.0\<close>, and with \<open>ffprobe\<close> failing, the probe call is
  the only call.
\<close>

theorem probe_step_outcomes_witness:
  "ffprobe demo_env ''/media/clip.mp4'' = Inl (FileNotFoundError ''ffprobe'')
   \<and> check_video_integrity demo_env ''/media/clip.mp4'' =
       (Inr (False, FrameReadFailed 295),
        [Probe ''/media/clip.mp4'', CapAcquire ''/media/clip.mp4'', Seek 0, ReadFrame,
         Seek 100, ReadFrame, Seek 295, ReadFrame, CapRelease ''/media/clip.mp4''])
   \<and> ffprobe zero_probe_env ''/media/clip.mp4'' = Inr ''0.0''
   \<and> float_of_str zero_probe_env ''0.0'' = Inr (Finite 0)
   \<and> check_video_integrity zero_probe_env ''/media/clip.mp4'' =
       (Inr (False, InvalidDuration (Finite 0)), [Probe ''/media/clip.mp4''])
   \<and> ffprobe failing_probe_env ''/media/clip.mp4'' =
       Inl (OtherException ''Command returned non-zero exit status 1'')
   \<and> check_video_integrity failing_probe_env ''/media/clip.mp4'' =
       (Inr (False, ProbeFailed ''Command returned non-zero exit status 1''),
        [Probe ''/media/clip.mp4''])"
proof -
  have a: "ffprobe demo_env ''/media/clip.mp4'' = Inl (FileNotFoundError ''ffprobe'')"
    by (simp add: demo_env_def)
  have b: "ffprobe zero_probe_env ''/media/clip.mp4'' = Inr ''0.0''"
    and b': "float_of_str zero_probe_env ''0.0'' = Inr (Finite 0)"
    by (simp_all add: zero_probe_env_def demo_env_def)
  have c: "ffprobe failing_probe_env ''/media/clip.mp4'' =
       Inl (OtherException ''Command returned non-zero exit status 1'')"
    by (simp add: failing_probe_env_def)
  have 1: "check_video_integrity demo_env ''/media/clip.mp4'' =
       (Inr (False, FrameReadFailed 295),
        [Probe ''/media/clip.mp4'', CapAcquire ''/media/clip.mp4'', Seek 0, ReadFrame,
         Seek 100, ReadFrame, Seek 295, ReadFrame, CapRelease ''/media/clip.mp4''])"
    using probe_step_outcomes [of demo_env "''/media/clip.mp4''" "''ffprobe''"] a
    by (simp add: demo_decode)
  have 2: "check_video_integrity zero_probe_env ''/media/clip.mp4'' =
       (Inr (False, InvalidDuration (Finite 0)), [Probe ''/media/clip.mp4''])"
    using probe_step_outcomes [of zero_probe_env "''/media/clip.mp4''" _ "''0.0''" "Finite 0"] b b'
    by simp
  have 3: "check_video_integrity failing_probe_env ''/media/clip.mp4'' =
       (Inr (False, ProbeFailed ''Command returned non-zero exit status 1''),
        [Probe ''/media/clip.mp4''])"
    using probe_step_outcomes [of failing_probe_env "''/media/clip.mp4''" _ _ _
        "OtherException ''Command returned non-zero exit status 1''"] c
    by simp
  from a b b' c 1 2 3 show ?thesis by simp
qed

subsection \<open>The capture handle\<close>

lemma sample_frames_Cons_events:
  "snd (sample_frames cap sought (a # idxs)) = [Seek a]
   \<or> snd (sample_frames cap sought (a # idxs)) = [Seek a, ReadFrame]
   \<or> snd (sample_frames cap sought (a # idxs))
       = [Seek a, ReadFrame] @ snd (sample_frames cap (sought @ [a]) idxs)"
  by (auto split: sum.splits prod.splits)

lemma scoped_sample_frames:
  "scoped (Some p) (snd (sample_frames cap sought idxs) @ rest) = scoped (Some p) rest"
proof (induction idxs arbitrary: sought)
  case Nil
  then show ?case by simp
next
  case (Cons a idxs)
  from sample_frames_Cons_events [of cap sought a idxs] Cons.IH [of "sought @ [a]"]
  show ?case by (auto simp del: sample_frames.simps)
qed

lemma no_acquire_sample_frames: "CapAcquire q \<notin> set (snd (sample_frames cap sought idxs))"
proof (induction idxs arbitrary: sought)
  case Nil
  then show ?case by simp
next
  case (Cons a idxs)
  from sample_frames_Cons_events [of cap sought a idxs] Cons.IH [of "sought @ [a]"]
  show ?case by (auto simp del: sample_frames.simps)
qed

lemma video_try_events:
  "snd (video_try cap d) = []
   \<or> (\<exists>idxs. snd (video_try cap d) = snd (sample_frames cap [] idxs))"
  unfolding video_try_def
  by (auto split: sum.splits prod.splits option.splits) (metis snd_conv)+

lemma scoped_video_try:
  "scoped (Some p) (snd (video_try cap d) @ rest) = scoped (Some p) rest"
  using video_try_events [of cap d] scoped_sample_frames [of p cap "[]" _ rest] by auto

lemma no_acquire_video_try: "CapAcquire q \<notin> set (snd (video_try cap d))"
  using video_try_events [of cap d] no_acquire_sample_frames [of q cap "[]"] by auto

lemma decode_steps_events:
  "snd (decode_steps E p d) =
     (case video_capture E p of
        Inl e \<Rightarrow> []
      | Inr cap \<Rightarrow> CapAcquire p # snd (video_try cap d) @ [CapRelease p])"
  by (simp add: decode_steps_def split: sum.splits prod.splits)

lemma check_video_events:
  "snd (check_video_integrity E p) =
     (case probe_duration E p of
        Inl r \<Rightarrow> [Probe p]
      | Inr d \<Rightarrow> Probe p # snd (decode_steps E p d))"
  by (simp add: check_video_integrity_def split: sum.splits prod.splits)

lemma scoped_decode_steps: "scoped None (snd (decode_steps E p d))"
  by (simp add: decode_steps_events scoped_video_try split: sum.splits)

lemma scoped_check_video: "scoped None (snd (check_video_integrity E p))"
  by (simp add: check_video_events scoped_decode_steps split: sum.splits)

text \<open>
  Claim C4. In every call of \<open>check_video_integrity\<close>, whatever the collaborators do
  (success, any early failure return, or an exception raised after the capture was
  constructed), the calls on the capture handle are well scoped: the handle is released
  exactly when one was acquired, nothing is sought or read outside an acquired handle, and
  no handle is held when the function returns. Once a capture has been acquired, its
  release is the last call the function makes.
\<close>

theorem capture_always_released:
  "scoped None (snd (check_video_integrity E p))
   \<and> (\<forall>q. CapAcquire q \<in> set (snd (check_video_integrity E p)) \<longrightarrow>
          last (snd (check_video_integrity E p)) = CapRelease q)"
proof -
  have "last (snd (check_video_integrity E p)) = CapRelease q"
    if "CapAcquire q \<in> set (snd (check_video_integrity E p))" for q
    using that no_acquire_video_try [of q]
    by (auto simp: check_video_events decode_steps_events split: sum.splits)
  with scoped_check_video show ?thesis by blast
qed

text \<open>A video whose first frame read raises: the handle is still released last.\<close>

lemma raising_decode:
  "check_video_integrity raising_env ''/media/clip.mp4'' =
     (Inr (False, VideoCorrupt ''decode error''),
      [Probe ''/media/clip.mp4'', CapAcquire ''/media/clip.mp4'', Seek 0, ReadFrame,
       CapRelease ''/media/clip.mp4''])"
proof -
  define cap where
    "cap = demo_capture\<lparr> cap_read := (\<lambda>sought. Inl (OtherException ''decode error'')) \<rparr>"
  have p: "read_props cap = Inr (300, Finite 25, 640, 480)"
    by (simp add: cap_def read_props_def demo_capture_def demo_get_def bind_exn_def)
  have s: "sample_frames cap [] (test_frames 300)
      = (Inl (OtherException ''decode error''), [Seek 0, ReadFrame])"
    by (simp add: cap_def test_frames_def demo_capture_def)
  have o: "isOpened cap = Inr True" by (simp add: cap_def demo_capture_def)
  have v: "video_try cap d = (Inl (OtherException ''decode error''), [Seek 0, ReadFrame])" for d
    by (simp add: video_try_def p s o)
  have c: "video_capture raising_env ''/media/clip.mp4'' = Inr cap"
    by (simp add: raising_env_def cap_def)
  have "probe_duration raising_env ''/media/clip.mp4'' = Inr (Finite 0)"
    by (rule probe_absent [of _ _ "''ffprobe''"]) (simp add: raising_env_def demo_env_def)
  then show ?thesis
    by (simp add: check_video_integrity_def decode_steps_def c v)
qed

theorem capture_always_released_witness:
  "snd (check_video_integrity raising_env ''/media/clip.mp4'') =
      [Probe ''/media/clip.mp4'', CapAcquire ''/media/clip.mp4'', Seek 0, ReadFrame,
       CapRelease ''/media/clip.mp4'']
   \<and> CapAcquire ''/media/clip.mp4'' \<in> set (snd (check_video_integrity raising_env ''/media/clip.mp4''))
   \<and> scoped None (snd (check_video_integrity raising_env ''/media/clip.mp4''))
   \<and> last (snd (check_video_integrity raising_env ''/media/clip.mp4'')) = CapRelease ''/media/clip.mp4''"
proof -
  have a: "CapAcquire ''/media/clip.mp4'' \<in> set (snd (check_video_integrity raising_env ''/media/clip.mp4''))"
    by (simp add: raising_decode)
  from capture_always_released [of raising_env "''/media/clip.mp4''"] a
  have "scoped None (snd (check_video_integrity raising_env ''/media/clip.mp4''))"
    and "last (snd (check_video_integrity raising_env ''/media/clip.mp4'')) = CapRelease ''/media/clip.mp4''"
    by blast+
  with a show ?thesis by (simp add: raising_decode)
qed

subsection \<open>Frame sampling\<close>


lemma sample_frames_step:
  "frame_read_ok cap sought a \<Longrightarrow>
   sample_frames cap sought (a # rest) =
     (fst (sample_frames cap (sought @ [a]) rest),
      [Seek a, ReadFrame] @ snd (sample_frames cap (sought @ [a]) rest))"
  by (auto simp: frame_read_ok_def split: sum.splits prod.splits)




lemma sample_frames_none_iff:
  "fst (sample_frames cap sought idxs) = Inr None \<longleftrightarrow> all_reads_ok cap sought idxs"
proof (induction idxs arbitrary: sought)
  case Nil
  then show ?case by simp
next
  case (Cons a idxs)
  show ?case
  proof (cases "frame_read_ok cap sought a")
    case True
    with Cons.IH [of "sought @ [a]"] show ?thesis
      by (simp add: sample_frames_step del: sample_frames.simps)
  next
    case False
    then have "fst (sample_frames cap sought (a # idxs)) \<noteq> Inr None"
      by (auto simp: frame_read_ok_def split: sum.splits prod.splits)
    with False show ?thesis by simp
  qed
qed
















section \<open>Properties of a run\<close>

lemma check_files_Cons:
  assumes "(if file_ext_of f \<in> set SUPPORTED_IMAGES then check_image_integrity E f
            else check_video_integrity E f) = (Inr (is_ok, msg), evs')"
  shows "check_files E dir (f # rest) (res, ok, evs) =
     check_files E dir rest
       (res @ [\<lparr> res_path = relpath E f dir,
                  res_type = (if file_ext_of f \<in> set SUPPORTED_IMAGES then IMAGE else VIDEO),
                  res_status = (if is_ok then StatusOk else StatusDamaged),
                  res_message = msg \<rparr>],
        if is_ok then ok + 1 else ok,
        evs @ evs')"
  using assms by (simp add: Let_def)

lemma either_check_returns:
  "\<exists>is_ok msg evs'.
     (if file_ext_of f \<in> set SUPPORTED_IMAGES then check_image_integrity E f
      else check_video_integrity E f) = (Inr (is_ok, msg), evs')"
  using check_image_returns [of E f] check_video_returns [of E f] by auto

lemma check_files_returns:
  "\<exists>res' ok' evs'.
     check_files E dir files (res, ok, evs) = Inr (res', ok', evs')
     \<and> length res' = length res + length files
     \<and> ok' - int (length (filter (\<lambda>x. res_status x = StatusOk) res'))
         = ok - int (length (filter (\<lambda>x. res_status x = StatusOk) res))"
proof (induction files arbitrary: res ok evs)
  case Nil
  then show ?case by simp
next
  case (Cons f files)
  obtain is_ok msg evs' where c:
    "(if file_ext_of f \<in> set SUPPORTED_IMAGES then check_image_integrity E f
      else check_video_integrity E f) = (Inr (is_ok, msg), evs')"
    using either_check_returns by blast
  define row where "row = \<lparr> res_path = relpath E f dir,
                  res_type = (if file_ext_of f \<in> set SUPPORTED_IMAGES then IMAGE else VIDEO),
                  res_status = (if is_ok then StatusOk else StatusDamaged),
                  res_message = msg \<rparr>"
  have step: "check_files E dir (f # files) (res, ok, evs) =
     check_files E dir files (res @ [row], if is_ok then ok + 1 else ok, evs @ evs')"
    unfolding row_def by (rule check_files_Cons [OF c])
  obtain res' ok' evs'' where r:
    "check_files E dir files (res @ [row], if is_ok then ok + 1 else ok, evs @ evs') = Inr (res', ok', evs'')"
    "length res' = length (res @ [row]) + length files"
    "ok' - int (length (filter (\<lambda>x. res_status x = StatusOk) res'))
         = (if is_ok then ok + 1 else ok) - int (length (filter (\<lambda>x. res_status x = StatusOk) (res @ [row])))"
    using Cons.IH [of "res @ [row]" "if is_ok then ok + 1 else ok" "evs @ evs'"] by blast
  have "(if is_ok then ok + 1 else ok) - int (length (filter (\<lambda>x. res_status x = StatusOk) (res @ [row])))
      = ok - int (length (filter (\<lambda>x. res_status x = StatusOk) res))"
    by (simp add: row_def)
  with r step show ?case by simp
qed

lemma status_partition:
  "length (filter (\<lambda>x. res_status x = StatusOk) rs)
   + length (filter (\<lambda>x. res_status x = StatusDamaged) rs) = length rs"
proof (induction rs)
  case Nil
  then show ?case by simp
next
  case (Cons a rs)
  then show ?case by (cases "res_status a") simp_all
qed

lemma init_Inr:
  "init E dir rec rep = Inr self \<Longrightarrow>
   isdir E (abspath E dir)
   \<and> self = \<lparr> directory = abspath E dir, recursive = rec, report_file = rep,
               media_files = [], results = [], total_count = 0, ok_count = 0,
               error_count = 0 \<rparr>"
  by (simp add: init_def Let_def split: if_splits)

lemma init_isdir:
  "isdir E (abspath E dir) \<Longrightarrow>
   init E dir rec rep = Inr \<lparr> directory = abspath E dir, recursive = rec, report_file = rep,
               media_files = [], results = [], total_count = 0, ok_count = 0,
               error_count = 0 \<rparr>"
  by (simp add: init_def Let_def)

lemma init_not_isdir:
  "\<not> isdir E (abspath E dir) \<Longrightarrow> init E dir rec rep = Inl (ValueError (abspath E dir))"
  by (simp add: init_def Let_def)

lemma run_checks_scanned:
  assumes "media_files self \<noteq> []" "total_count self = int (length (media_files self))"
  shows "\<exists>self' evs. run_checks E self = Inr (self', evs) \<and> counted self'
           \<and> media_files self' = media_files self \<and> directory self' = directory self"
proof -
  obtain res ok evs where r:
    "check_files E (directory self) (media_files self) ([], 0, []) = Inr (res, ok, evs)"
    "length res = length (media_files self)"
    "ok = int (length (filter (\<lambda>x. res_status x = StatusOk) res))"
    using check_files_returns [of E "directory self" "media_files self" "[]" 0 "[]"] by auto
  have "run_checks E self =
      Inr (self\<lparr> results := res, ok_count := ok, error_count := total_count self - ok \<rparr>, evs)"
    using assms(1) r(1) by (simp add: run_checks_def Let_def)
  moreover have "counted (self\<lparr> results := res, ok_count := ok, error_count := total_count self - ok \<rparr>)"
    using assms(2) r(2,3) status_partition [of res] by (simp add: counted_def)
  ultimately show ?thesis by simp
qed

lemma scan_fields:
  "media_files (scan_media_files E self) = scan_walk (recursive self) (walk E (directory self)) []"
  "total_count (scan_media_files E self) = int (length (media_files (scan_media_files E self)))"
  "results (scan_media_files E self) = results self"
  "ok_count (scan_media_files E self) = ok_count self"
  "error_count (scan_media_files E self) = error_count self"
  "directory (scan_media_files E self) = directory self"
  by (simp_all add: scan_media_files_def Let_def)

lemma fresh_scan_counted:
  assumes "init E dir rec rep = Inr self" "media_files (scan_media_files E self) = []"
  shows "counted (scan_media_files E self)"
  using init_Inr [OF assms(1)] assms(2) by (simp add: counted_def scan_fields(2-5))

lemma run_checks_fresh:
  assumes "init E dir rec rep = Inr self"
  shows "\<exists>self' evs. run_checks E self = Inr (self', evs) \<and> counted self'"
proof (cases "media_files (scan_media_files E self) = []")
  case True
  have "media_files self = []" using init_Inr [OF assms] by simp
  with True have "run_checks E self = Inr (scan_media_files E self, [])"
    by (simp add: run_checks_def Let_def)
  with fresh_scan_counted [OF assms True] show ?thesis by simp
next
  case False
  have m: "media_files self = []" using init_Inr [OF assms] by simp
  obtain self' evs where r: "run_checks E (scan_media_files E self) = Inr (self', evs)" "counted self'"
    using run_checks_scanned [OF False scan_fields(2)] by blast
  have "run_checks E self = run_checks E (scan_media_files E self)"
    using m False by (simp add: run_checks_def Let_def)
  with r show ?thesis by simp
qed

lemma run_fresh:
  assumes "init E dir rec rep = Inr self"
  shows "\<exists>r. run E self = Inr r \<and> counted (final r)
     \<and> (report r = None \<or> report r = Some (generate_report (final r)))"
proof (cases "media_files (scan_media_files E self) = []")
  case True
  then have "run E self = Inr \<lparr> final = scan_media_files E self, events = [], report = None, saved = None \<rparr>"
    by (simp add: run_def Let_def)
  with fresh_scan_counted [OF assms True] show ?thesis by simp
next
  case False
  obtain self' evs where r: "run_checks E (scan_media_files E self) = Inr (self', evs)" "counted self'"
    using run_checks_scanned [OF False scan_fields(2)] by blast
  with False have "run E self = Inr \<lparr> final = self', events = evs, report = Some (generate_report self'),
       saved = save_report self' (generate_report self') \<rparr>"
    by (simp add: run_def Let_def)
  with r(2) show ?thesis by simp
qed

text \<open>
  Claim C3. After every completed run of a checker that \<open>__init__\<close> has built, whatever
  files the scan finds and however their checks end, the run returns normally and
  \<open>total_count\<close> equals \<open>ok_count\<close> plus \<open>error_count\<close>. Moreover the three counts are the
  number of results, the number of results with the normal status and the number of
  results with the damaged status.
\<close>

theorem counts_add_up:
  assumes "init E dir rec rep = Inr self"
  shows "\<exists>r. run E self = Inr r
     \<and> total_count (final r) = ok_count (final r) + error_count (final r)
     \<and> total_count (final r) = int (length (results (final r)))
     \<and> ok_count (final r) = int (length (filter (\<lambda>x. res_status x = StatusOk) (results (final r))))
     \<and> error_count (final r)
         = int (length (filter (\<lambda>x. res_status x = StatusDamaged) (results (final r))))"
proof -
  obtain r where r: "run E self = Inr r" "counted (final r)"
    using run_fresh [OF assms] by blast
  from r(2) status_partition [of "results (final r)"]
  have "total_count (final r) = ok_count (final r) + error_count (final r)"
    by (simp add: counted_def)
  with r show ?thesis by (simp add: counted_def)
qed

lemma length_generate_report: "length (generate_report self) = 12 + length (results self)"
  by (simp add: generate_report_def)

text \<open>
  Claim C6. For a checker that \<open>__init__\<close> has built, \<open>run_checks\<close> returns normally with
  one result for each of the \<open>n\<close> scanned files, and the report generated from it has
  12 header and separator entries plus one entry for each scanned file: \<open>12 + n\<close> entries.
\<close>

theorem report_line_count:
  assumes "init E dir rec rep = Inr self"
  shows "\<exists>self' evs. run_checks E self = Inr (self', evs)
     \<and> length (results self') = length (media_files self')
     \<and> length (generate_report self') = 12 + length (media_files self')"
proof -
  obtain self' evs where "run_checks E self = Inr (self', evs)" "counted self'"
    using run_checks_fresh [OF assms] by blast
  then show ?thesis by (simp add: counted_def length_generate_report)
qed

text \<open>
  The run over \<open>/media\<close> in the sample world: three media files, of which the video fails
  its check and the two images pass.
\<close>

lemma demo_init: "init demo_env ''/media'' False None = Inr fresh_demo"
  by (simp add: init_def demo_env_def fresh_demo_def)

lemma demo_run_counts:
  "(case run demo_env fresh_demo of
      Inl e \<Rightarrow> False
    | Inr r \<Rightarrow> total_count (final r) = 3 \<and> ok_count (final r) = 2 \<and> error_count (final r) = 1
              \<and> map res_status (results (final r)) = [StatusDamaged, StatusOk, StatusOk])"
  by code_simp

theorem counts_add_up_witness:
  "init demo_env ''/media'' False None = Inr fresh_demo
   \<and> (\<exists>r. run demo_env fresh_demo = Inr r
        \<and> total_count (final r) = 3 \<and> ok_count (final r) = 2 \<and> error_count (final r) = 1
        \<and> total_count (final r) = ok_count (final r) + error_count (final r))"
proof -
  obtain r where r: "run demo_env fresh_demo = Inr r"
    "total_count (final r) = ok_count (final r) + error_count (final r)"
    using counts_add_up [OF demo_init] by blast
  from demo_run_counts r(1)
  have "total_count (final r) = 3 \<and> ok_count (final r) = 2 \<and> error_count (final r) = 1"
    by simp
  with r demo_init show ?thesis by blast
qed

lemma demo_run_checks_files:
  "(case run_checks demo_env fresh_demo of
      Inl e \<Rightarrow> False
    | Inr (self', evs) \<Rightarrow>
        media_files self' = [''/media/clip.mp4'', ''/media/photo.jpeg'', ''/media/anim.gif''])"
  by code_simp

theorem report_line_count_witness:
  "init demo_env ''/media'' False None = Inr fresh_demo
   \<and> (\<exists>self' evs. run_checks demo_env fresh_demo = Inr (self', evs)
        \<and> length (media_files self') = 3
        \<and> length (generate_report self') = 15)"
proof -
  obtain self' evs where r: "run_checks demo_env fresh_demo = Inr (self', evs)"
    "length (generate_report self') = 12 + length (media_files self')"
    using report_line_count [OF demo_init] by blast
  from demo_run_checks_files r(1) have "length (media_files self') = 3" by simp
  with r demo_init show ?thesis by simp
qed

subsection \<open>How the process ends\<close>

lemma main_not_isdir:
  "\<not> isdir E (abspath E dir) \<Longrightarrow> main E dir rec rep = ErrorExit (abspath E dir)"
  by (simp add: main_def init_not_isdir bind_exn_def)

lemma main_isdir:
  assumes "isdir E (abspath E dir)"
  shows "\<exists>r. main E dir rec rep = Completed r"
proof -
  let ?self = "\<lparr> directory = abspath E dir, recursive = rec, report_file = rep,
               media_files = [], results = [], total_count = 0, ok_count = 0,
               error_count = 0 \<rparr>"
  have i: "init E dir rec rep = Inr ?self" using assms by (rule init_isdir)
  obtain r where "run E ?self = Inr r" using run_fresh [OF i] by blast
  with i show ?thesis by (simp add: main_def bind_exn_def)
qed

text \<open>
  Claim C7. When the target path is not a valid directory, \<open>__init__\<close> raises the
  \<open>ValueError\<close>, \<open>main\<close> prints it and exits with status 1, and nothing was checked: there
  are no results and no collaborator was called. When the target is a valid directory,
  the process completes and ends with status 0, whatever the results of the checks are.
\<close>

theorem invalid_directory_is_fatal:
  "(\<not> isdir E (abspath E dir) \<longrightarrow>
      init E dir rec rep = Inl (ValueError (abspath E dir))
      \<and> main E dir rec rep = ErrorExit (abspath E dir)
      \<and> exit_status (main E dir rec rep) = 1
      \<and> results_of (main E dir rec rep) = []
      \<and> events_of (main E dir rec rep) = [])
   \<and> (isdir E (abspath E dir) \<longrightarrow>
      (\<exists>r. main E dir rec rep = Completed r) \<and> exit_status (main E dir rec rep) = 0)"
proof (intro conjI impI)
  assume a: "\<not> isdir E (abspath E dir)"
  show "init E dir rec rep = Inl (ValueError (abspath E dir))"
    using a by (rule init_not_isdir)
  show "main E dir rec rep = ErrorExit (abspath E dir)"
    using a by (rule main_not_isdir)
  then show "exit_status (main E dir rec rep) = 1"
    and "results_of (main E dir rec rep) = []"
    and "events_of (main E dir rec rep) = []"
    by simp_all
next
  assume a: "isdir E (abspath E dir)"
  then obtain r where r: "main E dir rec rep = Completed r"
    using main_isdir by blast
  then show "\<exists>r. main E dir rec rep = Completed r" by blast
  from r show "exit_status (main E dir rec rep) = 0" by simp
qed

text \<open>
  In the sample world the relative path \<open>media\<close> is not a directory and ends the process
  with status 1; the run over \<open>/media\<close> finds a damaged file and ends with status 0.
\<close>

lemma demo_main_results:
  "map res_status (results_of (main demo_env ''/media'' False None))
     = [StatusDamaged, StatusOk, StatusOk]"
  by code_simp

theorem invalid_directory_is_fatal_witness:
  "\<not> isdir demo_env (abspath demo_env ''media'')
   \<and> main demo_env ''media'' False None = ErrorExit ''/work/media''
   \<and> exit_status (main demo_env ''media'' False None) = 1
   \<and> results_of (main demo_env ''media'' False None) = []
   \<and> events_of (main demo_env ''media'' False None) = []
   \<and> isdir demo_env (abspath demo_env ''/media'')
   \<and> map res_status (results_of (main demo_env ''/media'' False None))
       = [StatusDamaged, StatusOk, StatusOk]
   \<and> exit_status (main demo_env ''/media'' False None) = 0"
proof -
  have a: "abspath demo_env ''media'' = ''/work/media''"
    by (simp add: demo_env_def path_join_def)
  have n: "\<not> isdir demo_env (abspath demo_env ''media'')"
    unfolding a by (simp add: demo_env_def)
  have y: "isdir demo_env (abspath demo_env ''/media'')"
    by (simp add: demo_env_def)
  from invalid_directory_is_fatal [of demo_env "''media''" False None] n a
  have 1: "main demo_env ''media'' False None = ErrorExit ''/work/media''
    \<and> exit_status (main demo_env ''media'' False None) = 1
    \<and> results_of (main demo_env ''media'' False None) = []
    \<and> events_of (main demo_env ''media'' False None) = []"
    by simp
  from invalid_directory_is_fatal [of demo_env "''/media''" False None] y
  have 2: "exit_status (main demo_env ''/media'' False None) = 0"
    by blast
  from n y 1 2 demo_main_results show ?thesis by blast
qed

subsection \<open>The rows of the report\<close>

lemma report_row: "i < length (results self) \<Longrightarrow>
   generate_report self ! (12 + i) = result_line (results self ! i)"
  by (simp add: generate_report_def nth_append)

lemma display_path_short: "length p \<le> 50 \<Longrightarrow> display_path p = p"
  by (simp add: display_path_def)

lemma display_path_long:
  assumes "50 < length p"
  shows "\<exists>suf. display_path p = ''...'' @ suf \<and> length suf = 47 \<and> suffix suf p"
proof -
  have "display_path p = ''...'' @ last_chars 47 p"
    using assms by (simp add: display_path_def)
  moreover have "length (last_chars 47 p) = 47"
    using assms by (simp add: last_chars_def)
  moreover have "suffix (last_chars 47 p) p"
    by (simp add: last_chars_def suffix_drop)
  ultimately show ?thesis by blast
qed

text \<open>
  Claim C8. The report entry of the \<open>i\<close>-th result shows the result's relative path
  unchanged when the path has at most 50 characters; otherwise it shows three dots
  followed by the last 47 characters of the path. The type, status and message of the
  entry are those of the result.
\<close>

theorem report_row_display_path:
  assumes "i < length (results self)"
  shows "\<exists>shown. generate_report self ! (12 + i)
            = ResultLine shown (res_type (results self ! i)) (res_status (results self ! i))
                (res_message (results self ! i))
     \<and> (length (res_path (results self ! i)) \<le> 50 \<longrightarrow> shown = res_path (results self ! i))
     \<and> (50 < length (res_path (results self ! i)) \<longrightarrow>
          (\<exists>suf. shown = ''...'' @ suf \<and> length suf = 47
                 \<and> suffix suf (res_path (results self ! i))))"
  using report_row [OF assms] display_path_short [of "res_path (results self ! i)"]
    display_path_long [of "res_path (results self ! i)"]
  by (simp add: result_line_def)

text \<open>A path of 5 characters is shown as it is, one of 60 characters is cut to its end.\<close>

lemma long_path_length: "length long_path = 60"
  by (simp add: long_path_def)

lemma reported_rows:
  "results reported_checker =
     [\<lparr> res_path = ''a.png'', res_type = IMAGE, res_status = StatusOk, res_message = ImageOk \<rparr>,
      \<lparr> res_path = long_path, res_type = IMAGE, res_status = StatusOk, res_message = ImageOk \<rparr>]"
  by (simp add: reported_checker_def)

lemma reported_long_row:
  "generate_report reported_checker ! 13
     = ResultLine ''...summer/beach/day-one/raw/IMG_0001_original.jpeg'' IMAGE StatusOk ImageOk"
  by code_simp

theorem report_row_display_path_witness:
  "length (results reported_checker) = 2
   \<and> length (res_path (results reported_checker ! 0)) \<le> 50
   \<and> generate_report reported_checker ! 12 = ResultLine ''a.png'' IMAGE StatusOk ImageOk
   \<and> 50 < length (res_path (results reported_checker ! 1))
   \<and> (\<exists>suf. generate_report reported_checker ! 13
               = ResultLine (''...'' @ suf) IMAGE StatusOk ImageOk
             \<and> length suf = 47 \<and> suffix suf long_path)
   \<and> generate_report reported_checker ! 13
       = ResultLine ''...summer/beach/day-one/raw/IMG_0001_original.jpeg'' IMAGE StatusOk ImageOk"
proof -
  have 0: "generate_report reported_checker ! 12 = ResultLine ''a.png'' IMAGE StatusOk ImageOk"
    using report_row_display_path [of 0 reported_checker] by (auto simp: reported_rows)
  have 1: "\<exists>suf. generate_report reported_checker ! 13
               = ResultLine (''...'' @ suf) IMAGE StatusOk ImageOk
             \<and> length suf = 47 \<and> suffix suf long_path"
    using report_row_display_path [of 1 reported_checker] long_path_length
    by (auto simp: reported_rows)
  from 0 1 reported_long_row long_path_length show ?thesis
    by (simp add: reported_rows)
qed

section \<open>Failures are results, not exceptions\<close>

lemma image_except_not_ok: "fst (image_except e) = False"
  by (cases e) simp_all

lemma video_except_not_ok: "fst (video_except e) = False"
  by (cases e) simp_all

lemma image_block_some_not_ok: "image_block p img = Inr (Some r) \<Longrightarrow> fst r = False"
  by (auto simp: image_block_def Let_def split: if_splits option.splits)

lemma image_block_passes:
  "image_block p img = Inr None \<Longrightarrow>
   0 < img_width img \<and> 0 < img_height img \<and> img_load img = None"
  by (auto simp: image_block_def Let_def split: if_splits option.splits)

lemma check_image_ok:
  assumes "check_image_integrity E p = (Inr (True, msg), evs)"
  shows "\<exists>img. image_open E p = Inr img \<and> 0 < img_width img \<and> 0 < img_height img
           \<and> img_load img = None"
proof (cases "image_open E p")
  case (Inl e)
  with assms image_except_not_ok [of e] show ?thesis
    by (simp add: check_image_integrity_def image_try_def)
next
  case (Inr img)
  show ?thesis
  proof (cases "image_block p img")
    case (Inl e)
    with Inr assms image_except_not_ok [of e] show ?thesis
      by (simp add: check_image_integrity_def image_try_def)
  next
    case b: (Inr x)
    show ?thesis
    proof (cases x)
      case None
      with b Inr image_block_passes [of p img] show ?thesis by simp
    next
      case (Some r)
      with b Inr assms image_block_some_not_ok [of p img r] show ?thesis
        by (simp add: check_image_integrity_def image_try_def)
    qed
  qed
qed

lemma sample_frames_some_not_ok:
  "fst (sample_frames cap sought idxs) = Inr (Some r) \<Longrightarrow> fst r = False"
proof (induction idxs arbitrary: sought)
  case Nil
  then show ?case by simp
next
  case (Cons a idxs)
  show ?case
  proof (cases "frame_read_ok cap sought a")
    case True
    with Cons.prems Cons.IH [of "sought @ [a]"] show ?thesis
      by (simp add: sample_frames_step del: sample_frames.simps)
  next
    case False
    with Cons.prems show ?thesis
      by (auto simp: frame_read_ok_def split: sum.splits prod.splits if_splits)
  qed
qed

lemma probe_duration_Inl_not_ok: "probe_duration E p = Inl r \<Longrightarrow> fst r = False"
  by (auto simp: probe_duration_def probe_try_def bind_exn_def
      split: sum.splits exn.splits if_splits)

lemma video_try_ok:
  assumes "video_try cap d = (Inr (True, msg), evs)"
  shows "isOpened cap = Inr True
     \<and> (\<exists>fc fps w h. read_props cap = Inr (fc, fps, w, h) \<and> 0 < fc \<and> \<not> le_zero fps
           \<and> 0 < w \<and> 0 < h \<and> all_reads_ok cap [] (test_frames fc))"
proof (cases "isOpened cap")
  case (Inl e)
  with assms show ?thesis by (simp add: video_try_def)
next
  case (Inr opened)
  with assms have o: "opened" by (auto simp: video_try_def split: if_splits)
  show ?thesis
  proof (cases "read_props cap")
    case (Inl e)
    with assms Inr o show ?thesis by (simp add: video_try_def)
  next
    case p: (Inr props)
    obtain fc fps w h where props: "props = (fc, fps, w, h)" by (cases props)
    from assms Inr o p props
    have g: "0 < fc" "\<not> le_zero fps" "0 < w" "0 < h"
      by (auto simp: video_try_def split: if_splits)
    obtain r sevs where s: "sample_frames cap [] (test_frames fc) = (r, sevs)"
      by (cases "sample_frames cap [] (test_frames fc)")
    have "r = Inr None"
    proof (cases r)
      case (Inl e)
      with assms Inr o p props g s show ?thesis by (simp add: video_try_def)
    next
      case r: (Inr x)
      show ?thesis
      proof (cases x)
        case None
        with r show ?thesis by simp
      next
        case (Some res)
        with r s sample_frames_some_not_ok [of cap "[]" "test_frames fc" res]
        have "fst res = False" by simp
        with assms Inr o p props g s r Some show ?thesis
          by (auto simp: video_try_def)
      qed
    qed
    with s sample_frames_none_iff [of cap "[]" "test_frames fc"]
    have "all_reads_ok cap [] (test_frames fc)" by simp
    with Inr o p props g show ?thesis by simp
  qed
qed

lemma decode_steps_ok:
  assumes "fst (decode_steps E p d) = Inr (True, msg)"
  shows "\<exists>cap evs. video_capture E p = Inr cap \<and> video_try cap d = (Inr (True, msg), evs)"
proof (cases "video_capture E p")
  case (Inl e)
  with assms video_except_not_ok [of e] show ?thesis
    by (simp add: decode_steps_def)
next
  case (Inr cap)
  obtain r evs where v: "video_try cap d = (r, evs)" by (cases "video_try cap d")
  show ?thesis
  proof (cases r)
    case (Inl e)
    with assms Inr v video_except_not_ok [of e] show ?thesis
      by (simp add: decode_steps_def)
  next
    case r: (Inr x)
    with assms Inr v show ?thesis by (simp add: decode_steps_def)
  qed
qed

lemma check_video_ok:
  assumes "check_video_integrity E p = (Inr (True, msg), evs)"
  shows "\<exists>d cap fc fps w h.
     probe_duration E p = Inr d \<and> video_capture E p = Inr cap \<and> isOpened cap = Inr True
     \<and> read_props cap = Inr (fc, fps, w, h) \<and> 0 < fc \<and> \<not> le_zero fps \<and> 0 < w \<and> 0 < h
     \<and> all_reads_ok cap [] (test_frames fc)"
proof (cases "probe_duration E p")
  case (Inl r)
  with assms probe_duration_Inl_not_ok [of E p r] show ?thesis
    by (simp add: check_video_integrity_def)
next
  case (Inr d)
  with assms have "fst (decode_steps E p d) = Inr (True, msg)"
    by (simp add: check_video_after_probe)
  then obtain cap tevs where c: "video_capture E p = Inr cap"
    "video_try cap d = (Inr (True, msg), tevs)"
    using decode_steps_ok by blast
  from video_try_ok [OF c(2)] Inr c(1) show ?thesis by blast
qed

text \<open>
  Claim C9. \<open>check_image_integrity\<close> and \<open>check_video_integrity\<close> return a pair
  \<open>(ok, message)\<close> for every path and every behaviour of their collaborators: no exception
  leaves them. The result is ok only when nothing failed: for an image, it opened, has
  positive dimensions and loaded; for a video, the probe step did not end the check, the
  capture was constructed and is opened, frame count, frame rate, width and height are
  positive and every sampled frame was read. So every failure is returned as ok=false.
  The loop of \<open>run_checks\<close> therefore never stops early: it yields one result for every
  file of its list.
\<close>

theorem failures_are_results:
  "(\<exists>ok msg evs. check_image_integrity E p = (Inr (ok, msg), evs)
        \<and> (ok \<longrightarrow> (\<exists>img. image_open E p = Inr img \<and> 0 < img_width img
                         \<and> 0 < img_height img \<and> img_load img = None)))
   \<and> (\<exists>ok msg evs. check_video_integrity E q = (Inr (ok, msg), evs)
        \<and> (ok \<longrightarrow> (\<exists>d cap fc fps w h.
               probe_duration E q = Inr d \<and> video_capture E q = Inr cap
               \<and> isOpened cap = Inr True \<and> read_props cap = Inr (fc, fps, w, h)
               \<and> 0 < fc \<and> \<not> le_zero fps \<and> 0 < w \<and> 0 < h
               \<and> all_reads_ok cap [] (test_frames fc))))
   \<and> (\<exists>res ok evs. check_files E dir files ([], 0, []) = Inr (res, ok, evs)
        \<and> length res = length files)"
proof (intro conjI)
  obtain r evs where i: "check_image_integrity E p = (Inr r, evs)"
    using check_image_returns by blast
  obtain ok msg where r: "r = (ok, msg)" by (cases r)
  from i r check_image_ok [of E p msg evs]
  show "\<exists>ok msg evs. check_image_integrity E p = (Inr (ok, msg), evs)
        \<and> (ok \<longrightarrow> (\<exists>img. image_open E p = Inr img \<and> 0 < img_width img
                         \<and> 0 < img_height img \<and> img_load img = None))"
    by auto
next
  obtain r evs where i: "check_video_integrity E q = (Inr r, evs)"
    using check_video_returns by blast
  obtain ok msg where r: "r = (ok, msg)" by (cases r)
  from i r check_video_ok [of E q msg evs]
  show "\<exists>ok msg evs. check_video_integrity E q = (Inr (ok, msg), evs)
        \<and> (ok \<longrightarrow> (\<exists>d cap fc fps w h.
               probe_duration E q = Inr d \<and> video_capture E q = Inr cap
               \<and> isOpened cap = Inr True \<and> read_props cap = Inr (fc, fps, w, h)
               \<and> 0 < fc \<and> \<not> le_zero fps \<and> 0 < w \<and> 0 < h
               \<and> all_reads_ok cap [] (test_frames fc)))"
    by auto
next
  show "\<exists>res ok evs. check_files E dir files ([], 0, []) = Inr (res, ok, evs)
        \<and> length res = length files"
    using check_files_returns [of E dir files "[]" 0 "[]"] by auto
qed


text \<open>
  An image that cannot be opened and a video whose frame read raises are both reported as
  damaged, and the file that follows the bad image is still checked.
\<close>

lemma demo_two_files:
  "(case check_files demo_env ''/media'' [''/media/sub/broken.png'', ''/media/photo.jpeg'']
           ([], 0, []) of
      Inl e \<Rightarrow> False
    | Inr (res, ok, evs) \<Rightarrow> map res_status res = [StatusDamaged, StatusOk] \<and> ok = 1)"
  by code_simp

theorem failures_are_results_witness:
  "image_open demo_env ''/media/sub/broken.png'' = Inl (OtherException ''cannot identify image file'')
   \<and> (\<exists>msg evs. check_image_integrity demo_env ''/media/sub/broken.png'' = (Inr (False, msg), evs))
   \<and> (\<exists>msg evs. check_video_integrity raising_env ''/media/clip.mp4'' = (Inr (False, msg), evs))
   \<and> (\<exists>res ok evs.
         check_files demo_env ''/media'' [''/media/sub/broken.png'', ''/media/photo.jpeg'']
           ([], 0, []) = Inr (res, ok, evs)
         \<and> length res = 2 \<and> map res_status res = [StatusDamaged, StatusOk])"
proof -
  note inst = failures_are_results [of demo_env "''/media/sub/broken.png''" "''/media/clip.mp4''"
      "''/media''" "[''/media/sub/broken.png'', ''/media/photo.jpeg'']"]
  note inst2 = failures_are_results [of raising_env "''/media/sub/broken.png''" "''/media/clip.mp4''"
      "''/media''" "[]"]
  have o: "image_open demo_env ''/media/sub/broken.png''
      = Inl (OtherException ''cannot identify image file'')"
    by (simp add: demo_env_def)
  from inst obtain ok msg evs where
    i: "check_image_integrity demo_env ''/media/sub/broken.png'' = (Inr (ok, msg), evs)"
    and "ok \<longrightarrow> (\<exists>img. image_open demo_env ''/media/sub/broken.png'' = Inr img
         \<and> 0 < img_width img \<and> 0 < img_height img \<and> img_load img = None)"
    by blast
  with o have "\<not> ok" by auto
  with i have 1: "\<exists>msg evs. check_image_integrity demo_env ''/media/sub/broken.png''
      = (Inr (False, msg), evs)"
    by auto
  from inst2 obtain vok vmsg vevs where
    v: "check_video_integrity raising_env ''/media/clip.mp4'' = (Inr (vok, vmsg), vevs)"
    by blast
  have "\<not> vok" using v by (simp add: raising_decode)
  with v have 2: "\<exists>msg evs. check_video_integrity raising_env ''/media/clip.mp4''
      = (Inr (False, msg), evs)"
    by auto
  from inst obtain res n fevs where
    f: "check_files demo_env ''/media'' [''/media/sub/broken.png'', ''/media/photo.jpeg'']
           ([], 0, []) = Inr (res, n, fevs)" "length res = 2"
    by auto
  with demo_two_files have "map res_status res = [StatusDamaged, StatusOk]" by simp
  with f have 3: "\<exists>res ok evs.
         check_files demo_env ''/media'' [''/media/sub/broken.png'', ''/media/photo.jpeg'']
           ([], 0, []) = Inr (res, ok, evs)
         \<and> length res = 2 \<and> map res_status res = [StatusDamaged, StatusOk]"
    by (intro exI [of _ res] exI [of _ n] exI [of _ fevs]) simp
  from o 1 2 3 show ?thesis by (intro conjI)
qed

end
